theory Spec2Isabelle
  imports Main
begin

section \<open>Data model\<close>

text \<open>
  The TypeScript sources are \<^verbatim>\<open>users.service.ts\<close> (class \<^verbatim>\<open>UsersService\<close>),
  \<^verbatim>\<open>users.controller.ts\<close> (class \<^verbatim>\<open>UsersController\<close>), the entity \<^verbatim>\<open>User\<close>,
  the two DTO classes and the authentication service (class \<^verbatim>\<open>AuthService\<close>).

  Strings are \<open>string\<close>; a \<^verbatim>\<open>Date\<close> is the number of milliseconds since the epoch;
  an id is an \<open>int\<close>. Ids are JavaScript numbers in the source: the counter starts at 1
  and grows by one per stored account, and a JavaScript array holds fewer than \<open>2^32\<close>
  elements, so the counter stays far inside the range where numbers are exact integers.
\<close>

type_synonym date = nat

text \<open>\<^verbatim>\<open>RegisterDto\<close> and \<^verbatim>\<open>LoginDto\<close>: the request bodies, already validated by the caller.\<close>

record RegisterDto =
  username :: string
  email :: string
  password :: string

record LoginDto =
  email :: string
  password :: string

text \<open>
  \<^verbatim>\<open>Omit<User, 'id' | 'createdAt'>\<close>, the argument of \<^verbatim>\<open>UsersService.create\<close>.
\<close>

record user_data =
  username :: string
  email :: string
  password :: string
  isActive :: bool
  updatedAt :: date

text \<open>
  The object literal \<^verbatim>\<open>{ sub, email, username }\<close> that \<^verbatim>\<open>login\<close> hands to the token issuer,
  and the claims set of an issued token: the payload with issued-at and expiry, in seconds.
\<close>

record jwt_payload =
  sub :: int
  email :: string
  username :: string

record jwt_claims = jwt_payload +
  iat :: nat
  exp :: nat

record token =
  claims :: jwt_claims
  signature :: string

text \<open>
  The entity \<^verbatim>\<open>User\<close>. \<open>user_public\<close> is \<^verbatim>\<open>Omit<User, 'password'>\<close>; \<open>user\<close> extends it
  with the \<^verbatim>\<open>password\<close> field, which holds the stored hash. The field \<^verbatim>\<open>id\<close> is written
  \<open>id'\<close>, since \<open>id\<close> is the identity function of HOL.
\<close>

record user_public =
  id' :: int
  username :: string
  email :: string
  isActive :: bool
  createdAt :: date
  updatedAt :: date

record user = user_public +
  password :: string

text \<open>The two private fields of \<^verbatim>\<open>UsersService\<close>.\<close>

record store =
  users :: "user list"
  idCounter :: int

definition init_store :: store where
  "init_store = \<lparr>users = [], idCounter = 1\<rparr>"

text \<open>
  The exceptions of \<^verbatim>\<open>@nestjs/common\<close> that the service throws, each with its message.
  An operation completes either by returning a value or by throwing one of them.
\<close>

datatype http_exception =
    ConflictException string
  | UnauthorizedException string
  | NotFoundException string

datatype 'a completion = Return 'a | Throw http_exception

text \<open>The success payloads of \<^verbatim>\<open>register\<close> and \<^verbatim>\<open>login\<close>.\<close>

record register_response =
  message :: string
  user :: user_public

record login_response =
  message :: string
  access_token :: token
  user :: user_public

text \<open>
  The message literals of the source. Two of them hold the letters \<^verbatim>\<open>a\<close> with acute
  accent; they are written as the two bytes of their UTF-8 encoding in the source file.
\<close>

definition msg_email_registered :: string where
  "msg_email_registered = ''El email ya est'' @ [CHR 0xC3, CHR 0xA1] @ '' registrado''"

definition msg_username_in_use :: string where
  "msg_username_in_use = ''El nombre de usuario ya est'' @ [CHR 0xC3, CHR 0xA1] @ '' en uso''"

definition msg_invalid_credentials :: string where
  "msg_invalid_credentials = ''Credenciales inv'' @ [CHR 0xC3, CHR 0xA1] @ ''lidas''"

definition msg_user_disabled :: string where
  "msg_user_disabled = ''Usuario desactivado. Contacte al administrador.''"

definition msg_user_not_found :: string where
  "msg_user_not_found = ''Usuario no encontrado''"

section \<open>UsersService\<close>

text \<open>
  \<^verbatim>\<open>const { password, ...rest } = user\<close>: the copy of a user without its \<^verbatim>\<open>password\<close>
  property. The source writes this destructuring out in \<^verbatim>\<open>findAll\<close>, \<^verbatim>\<open>register\<close>,
  \<^verbatim>\<open>login\<close> and \<^verbatim>\<open>getProfile\<close>.
\<close>

definition omit_password :: "user \<Rightarrow> user_public" where
  "omit_password u =
     \<lparr>id' = id' u, username = username u, email = email u, isActive = isActive u,
      createdAt = createdAt u, updatedAt = updatedAt u\<rparr>"

text \<open>
  \<^verbatim>\<open>create\<close>: the new user takes the current value of the counter as its id (post-increment),
  the fields of \<^verbatim>\<open>userData\<close>, and the current time \<open>now\<close> as \<^verbatim>\<open>createdAt\<close>; it is pushed
  at the end of the array and returned. No check of any kind is made here.
\<close>

definition create :: "date \<Rightarrow> user_data \<Rightarrow> store \<Rightarrow> user \<times> store" where
  "create now userData s =
     (let newUser =
            \<lparr>id' = idCounter s,
             username = user_data.username userData,
             email = user_data.email userData,
             isActive = user_data.isActive userData,
             createdAt = now,
             updatedAt = user_data.updatedAt userData,
             password = user_data.password userData\<rparr>
      in (newUser, \<lparr>users = users s @ [newUser], idCounter = idCounter s + 1\<rparr>))"

text \<open>\<^verbatim>\<open>Array.prototype.find\<close> is \<open>List.find\<close>: the first match, or nothing.\<close>

definition findByEmail :: "store \<Rightarrow> string \<Rightarrow> user option" where
  "findByEmail s e = find (\<lambda>u. email u = e) (users s)"

definition findById :: "store \<Rightarrow> int \<Rightarrow> user option" where
  "findById s i = find (\<lambda>u. id' u = i) (users s)"

definition findAll :: "store \<Rightarrow> user_public list" where
  "findAll s = map omit_password (users s)"

section \<open>UsersController\<close>

text \<open>
  \<^verbatim>\<open>GET /users\<close> and \<^verbatim>\<open>GET /users/:id\<close>. The route parameter arrives as a string and is
  converted by the unary plus of the language; \<open>UsersController_findOne\<close> takes the number
  that conversion yields.
\<close>

definition UsersController_findAll :: "store \<Rightarrow> user_public list" where
  "UsersController_findAll s = findAll s"

definition UsersController_findOne :: "store \<Rightarrow> int \<Rightarrow> user option" where
  "UsersController_findOne s i = findById s i"

section \<open>The token issuer\<close>

text \<open>
  Modelled from the spec: the configuration of \<^verbatim>\<open>JwtService\<close> (the signing secret and the
  lifetime of a token) is set where the authentication module is declared, which is not
  among the source files, and the encoding is the work of the JWT library. The spec says
  of the issuer that it "serializes the claims set, timestamps issued-at as now and expiry
  as now+24h (configurable constant), and signs with a process-wide secret". A token is
  modelled by the claims it encodes and its signature; \<open>mac\<close> is the keyed signature
  function and \<open>now\<close> the clock in seconds.
\<close>

definition expiresIn :: nat where
  "expiresIn = 24 * 60 * 60"

definition sign :: "(jwt_claims \<Rightarrow> string) \<Rightarrow> nat \<Rightarrow> jwt_payload \<Rightarrow> token" where
  "sign mac now payload =
     (let c = jwt_payload.extend payload \<lparr>iat = now, exp = now + expiresIn\<rparr>
      in \<lparr>claims = c, signature = mac c\<rparr>)"

section \<open>AuthService\<close>

text \<open>
  The password hasher is the library \<^verbatim>\<open>bcrypt\<close>. \<^verbatim>\<open>register\<close> takes as \<open>bcrypt_hash\<close> what
  \<^verbatim>\<open>bcrypt.hash\<close> computes in this call (the salt is drawn inside the library, so the
  function may differ from call to call), and \<^verbatim>\<open>login\<close> takes \<^verbatim>\<open>bcrypt.compare\<close> as
  \<open>bcrypt_compare\<close>. \<open>now1\<close> is the clock read by \<^verbatim>\<open>register\<close> for \<^verbatim>\<open>updatedAt\<close>, \<open>now2\<close>
  the clock read by \<^verbatim>\<open>create\<close> for \<^verbatim>\<open>createdAt\<close>.

  Both library calls are taken to resolve; a rejection by the library is an internal fault
  outside this model.

  Every operation returns its completion together with the store after the call.
  \<open>register\<close>, \<open>login\<close> and \<open>getProfile\<close> below are one call running from its first
  line to its last with no other call in between. \<^verbatim>\<open>register\<close> is an \<^verbatim>\<open>async\<close> method
  that suspends at \<^verbatim>\<open>await bcrypt.hash\<close>; its two halves, and calls that overlap at that
  point, are modelled in the section on overlapping registrations.
\<close>

definition register ::
  "(string \<Rightarrow> nat \<Rightarrow> string) \<Rightarrow> date \<Rightarrow> date \<Rightarrow> RegisterDto \<Rightarrow> store
     \<Rightarrow> register_response completion \<times> store" where
  "register bcrypt_hash now1 now2 registerDto s =
     (let username = RegisterDto.username registerDto;
          email = RegisterDto.email registerDto;
          password = RegisterDto.password registerDto
      in case findByEmail s email of
           Some existingUserByEmail \<Rightarrow> (Throw (ConflictException msg_email_registered), s)
         | None \<Rightarrow>
             (case find (\<lambda>user. user_public.username user = username) (findAll s) of
                Some existingUserByUsername \<Rightarrow>
                  (Throw (ConflictException msg_username_in_use), s)
              | None \<Rightarrow>
                  (let hashedPassword = bcrypt_hash password 10;
                       (newUser, s') =
                          create now2
                            \<lparr>user_data.username = username,
                             user_data.email = email,
                             user_data.password = hashedPassword,
                             user_data.isActive = True,
                             user_data.updatedAt = now1\<rparr> s
                   in (Return \<lparr>register_response.message = ''Usuario registrado exitosamente'',
                               register_response.user = omit_password newUser\<rparr>, s'))))"

definition login ::
  "(string \<Rightarrow> string \<Rightarrow> bool) \<Rightarrow> (jwt_claims \<Rightarrow> string) \<Rightarrow> nat \<Rightarrow> LoginDto \<Rightarrow> store
     \<Rightarrow> login_response completion \<times> store" where
  "login bcrypt_compare mac now loginDto s =
     (let email = LoginDto.email loginDto;
          password = LoginDto.password loginDto
      in case findByEmail s email of
           None \<Rightarrow> (Throw (UnauthorizedException msg_invalid_credentials), s)
         | Some u \<Rightarrow>
             if \<not> isActive u
             then (Throw (UnauthorizedException msg_user_disabled), s)
             else if \<not> bcrypt_compare password (user.password u)
             then (Throw (UnauthorizedException msg_invalid_credentials), s)
             else
               (let payload =
                      \<lparr>sub = id' u,
                       jwt_payload.email = user_public.email u,
                       jwt_payload.username = user_public.username u\<rparr>;
                    access_token = sign mac now payload
                in (Return \<lparr>message = ''Login exitoso'',
                            access_token = access_token,
                            user = omit_password u\<rparr>, s)))"

definition getProfile :: "store \<Rightarrow> int \<Rightarrow> user_public completion \<times> store" where
  "getProfile s userId =
     (case findById s userId of
        None \<Rightarrow> (Throw (NotFoundException msg_user_not_found), s)
      | Some u \<Rightarrow> (Return (omit_password u), s))"

section \<open>Overlapping registrations\<close>

text \<open>
  \<^verbatim>\<open>register\<close> runs without interruption from its first line to
  \<^verbatim>\<open>await bcrypt.hash(password, 10)\<close>, where it suspends and other calls may run, and
  again without interruption from the moment the hash is delivered to its \<^verbatim>\<open>return\<close>.
  \<open>register_checks\<close> is the first half: the exception thrown by one of the two checks, or
  nothing when the call reaches the \<^verbatim>\<open>await\<close>. \<open>register_resume\<close> is the second half, on
  the store as it is when the call resumes; both clocks are read there.
\<close>

definition register_checks :: "RegisterDto \<Rightarrow> store \<Rightarrow> http_exception option" where
  "register_checks registerDto s =
     (let username = RegisterDto.username registerDto;
          email = RegisterDto.email registerDto
      in case findByEmail s email of
           Some existingUserByEmail \<Rightarrow> Some (ConflictException msg_email_registered)
         | None \<Rightarrow>
             (case find (\<lambda>user. user_public.username user = username) (findAll s) of
                Some existingUserByUsername \<Rightarrow> Some (ConflictException msg_username_in_use)
              | None \<Rightarrow> None))"

definition register_resume ::
  "(string \<Rightarrow> nat \<Rightarrow> string) \<Rightarrow> date \<Rightarrow> date \<Rightarrow> RegisterDto \<Rightarrow> store
     \<Rightarrow> register_response \<times> store" where
  "register_resume bcrypt_hash now1 now2 registerDto s =
     (let username = RegisterDto.username registerDto;
          email = RegisterDto.email registerDto;
          password = RegisterDto.password registerDto;
          hashedPassword = bcrypt_hash password 10;
          (newUser, s') =
             create now2
               \<lparr>user_data.username = username,
                user_data.email = email,
                user_data.password = hashedPassword,
                user_data.isActive = True,
                user_data.updatedAt = now1\<rparr> s
      in (\<lparr>register_response.message = ''Usuario registrado exitosamente'',
           register_response.user = omit_password newUser\<rparr>, s'))"

text \<open>
  The service while registrations overlap: the store, and the calls suspended at the
  \<^verbatim>\<open>await\<close>, oldest first. Two things happen: a call of \<^verbatim>\<open>register\<close> arrives and runs its
  first half, or the hash of the suspended call number \<open>k\<close> is delivered and the call runs
  its second half.
\<close>

record service =
  current :: store
  suspended :: "RegisterDto list"

datatype register_event =
    RegisterCalled RegisterDto
  | HashResolved nat "string \<Rightarrow> nat \<Rightarrow> string" date date

fun overlap_step :: "register_event \<Rightarrow> service \<Rightarrow> service" where
  "overlap_step (RegisterCalled dto) sv =
     (case register_checks dto (current sv) of
        Some e \<Rightarrow> sv
      | None \<Rightarrow> \<lparr>current = current sv, suspended = suspended sv @ [dto]\<rparr>)"
| "overlap_step (HashResolved k h t1 t2) sv =
     (if k < length (suspended sv)
      then \<lparr>current = snd (register_resume h t1 t2 (suspended sv ! k) (current sv)),
            suspended = take k (suspended sv) @ drop (Suc k) (suspended sv)\<rparr>
      else sv)"

fun overlap_run :: "register_event list \<Rightarrow> service \<Rightarrow> service" where
  "overlap_run [] sv = sv"
| "overlap_run (e # es) sv = overlap_run es (overlap_step e sv)"

definition init_service :: service where
  "init_service = \<lparr>current = init_store, suspended = []\<rparr>"

section \<open>Sequences of operations\<close>

text \<open>
  The operations a caller can reach: the three of \<^verbatim>\<open>AuthService\<close> and the two routes of
  \<^verbatim>\<open>UsersController\<close>. A request carries, besides its arguments, what the environment
  contributes to the call (hasher, signature function, clock). \<open>run\<close> executes the requests
  one after the other, each call finished before the next begins; calls that overlap are
  the matter of \<open>overlap_run\<close>.
\<close>

datatype request =
    Register "string \<Rightarrow> nat \<Rightarrow> string" date date RegisterDto
  | Login "string \<Rightarrow> string \<Rightarrow> bool" "jwt_claims \<Rightarrow> string" nat LoginDto
  | GetProfile int
  | FindAll
  | FindOne int

fun step :: "request \<Rightarrow> store \<Rightarrow> store" where
  "step (Register h t1 t2 dto) s = snd (register h t1 t2 dto s)"
| "step (Login c m t dto) s = snd (login c m t dto s)"
| "step (GetProfile i) s = snd (getProfile s i)"
| "step FindAll s = s"
| "step (FindOne i) s = s"

fun run :: "request list \<Rightarrow> store \<Rightarrow> store" where
  "run [] s = s"
| "run (r # rs) s = run rs (step r s)"

text \<open>The ids handed out by the successful registrations of a run, in order.\<close>

fun created_ids :: "request list \<Rightarrow> store \<Rightarrow> int list" where
  "created_ids [] s = []"
| "created_ids (Register h t1 t2 dto # rs) s =
     (case register h t1 t2 dto s of
        (Return r, s') \<Rightarrow> id' (register_response.user r) # created_ids rs s'
      | (Throw e, s') \<Rightarrow> created_ids rs s')"
| "created_ids (r # rs) s = created_ids rs (step r s)"

definition unique_identities :: "store \<Rightarrow> bool" where
  "unique_identities s \<longleftrightarrow>
     distinct (map user_public.email (users s)) \<and> distinct (map user_public.username (users s))"

section \<open>Example data\<close>

text \<open>
  Concrete inputs on which the model is run below. \<open>stub_hash\<close>, \<open>stub_compare\<close> and
  \<open>stub_mac\<close> stand in for the hasher and the signature function on these examples only;
  every general theorem holds for arbitrary ones.
\<close>

definition stub_hash :: "string \<Rightarrow> nat \<Rightarrow> string" where
  "stub_hash plain rounds = ''$2b$10$'' @ rev plain"

definition stub_compare :: "string \<Rightarrow> string \<Rightarrow> bool" where
  "stub_compare plain hashed \<longleftrightarrow> hashed = stub_hash plain 10"

definition stub_mac :: "jwt_claims \<Rightarrow> string" where
  "stub_mac c = ''signature''"

definition juan_dto :: RegisterDto where
  "juan_dto =
     \<lparr>RegisterDto.username = ''juanperez'', RegisterDto.email = ''juan@test.com'',
      RegisterDto.password = ''miPassword123''\<rparr>"

definition ana_dto :: RegisterDto where
  "ana_dto =
     \<lparr>RegisterDto.username = ''ana'', RegisterDto.email = ''ana@test.com'',
      RegisterDto.password = ''secreto''\<rparr>"

definition juan :: user where
  "juan =
     \<lparr>id' = 1, username = ''juanperez'', email = ''juan@test.com'', isActive = True,
      createdAt = 1000, updatedAt = 1000, password = stub_hash ''miPassword123'' 10\<rparr>"

definition ana :: user where
  "ana =
     \<lparr>id' = 2, username = ''ana'', email = ''ana@test.com'', isActive = False,
      createdAt = 2000, updatedAt = 3000, password = stub_hash ''secreto'' 10\<rparr>"

text \<open>A store with one active and one deactivated account.\<close>

definition example_store :: store where
  "example_store = \<lparr>users = [juan, ana], idCounter = 3\<rparr>"

text \<open>Juan registers, registers again (refused), logs in; then Ana registers.\<close>

definition example_run :: "request list" where
  "example_run =
     [Register stub_hash 1000 1000 juan_dto,
      Register stub_hash 1500 1500 juan_dto,
      Login stub_compare stub_mac 1600
        \<lparr>LoginDto.email = ''juan@test.com'', LoginDto.password = ''miPassword123''\<rparr>,
      Register stub_hash 2000 2000 ana_dto]"

text \<open>
  Two requests to register Juan arrive one after the other, the second while the first is
  suspended at the \<^verbatim>\<open>await\<close>; then the two hashes are delivered.
\<close>

definition example_overlap :: "register_event list" where
  "example_overlap =
     [RegisterCalled juan_dto,
      RegisterCalled juan_dto,
      HashResolved 0 stub_hash 1000 1000,
      HashResolved 0 stub_hash 1001 1001]"

section \<open>Facts about the store and the operations\<close>

lemma findByEmail_None_iff: "findByEmail s e = None \<longleftrightarrow> e \<notin> set (map user_public.email (users s))"
  by (auto simp: findByEmail_def find_None_iff)



lemma username_find_None_iff:
  "find (\<lambda>user. user_public.username user = n) (findAll s) = None
     \<longleftrightarrow> n \<notin> set (map user_public.username (users s))"
  by (auto simp: findAll_def find_None_iff omit_password_def image_iff)

lemma msgs_distinct:
  "msg_email_registered \<noteq> msg_username_in_use"
  "msg_invalid_credentials \<noteq> msg_user_disabled"
  by (simp_all add: msg_email_registered_def msg_username_in_use_def
        msg_invalid_credentials_def msg_user_disabled_def)

text \<open>
  \<^verbatim>\<open>register\<close> by cases: the two conflicts, in the order of the source, and the creation.
\<close>

lemma register_cases:
  "register h t1 t2 dto s =
     (if RegisterDto.email dto \<in> set (map user_public.email (users s))
      then (Throw (ConflictException msg_email_registered), s)
      else if RegisterDto.username dto \<in> set (map user_public.username (users s))
      then (Throw (ConflictException msg_username_in_use), s)
      else (let newUser =
                  \<lparr>id' = idCounter s,
                   username = RegisterDto.username dto,
                   email = RegisterDto.email dto,
                   isActive = True,
                   createdAt = t2,
                   updatedAt = t1,
                   password = h (RegisterDto.password dto) 10\<rparr>
            in (Return \<lparr>register_response.message = ''Usuario registrado exitosamente'',
                        register_response.user = omit_password newUser\<rparr>,
                \<lparr>users = users s @ [newUser], idCounter = idCounter s + 1\<rparr>)))"
proof -
  consider (a) "RegisterDto.email dto \<in> set (map user_public.email (users s))"
    | (b) "RegisterDto.email dto \<notin> set (map user_public.email (users s))"
          "RegisterDto.username dto \<in> set (map user_public.username (users s))"
    | (c) "RegisterDto.email dto \<notin> set (map user_public.email (users s))"
          "RegisterDto.username dto \<notin> set (map user_public.username (users s))"
    by blast
  then show ?thesis
  proof cases
    case a
    then obtain x where "findByEmail s (RegisterDto.email dto) = Some x"
      using findByEmail_None_iff [of s "RegisterDto.email dto"]
      by (cases "findByEmail s (RegisterDto.email dto)") auto
    with a show ?thesis by (simp add: register_def)
  next
    case b
    from b(1) have e: "findByEmail s (RegisterDto.email dto) = None"
      by (simp add: findByEmail_None_iff)
    from b(2) obtain y where
      "find (\<lambda>user. user_public.username user = RegisterDto.username dto) (findAll s) = Some y"
      using username_find_None_iff [of "RegisterDto.username dto" s]
      by (cases "find (\<lambda>user. user_public.username user = RegisterDto.username dto) (findAll s)") auto
    with b e show ?thesis by (simp add: register_def)
  next
    case c
    from c(1) have e: "findByEmail s (RegisterDto.email dto) = None"
      by (simp add: findByEmail_None_iff)
    from c(2) have n:
      "find (\<lambda>user. user_public.username user = RegisterDto.username dto) (findAll s) = None"
      by (simp add: username_find_None_iff)
    from c e n show ?thesis by (simp add: register_def create_def Let_def)
  qed
qed

lemma register_Throw_store:
  "fst (register h t1 t2 dto s) = Throw e \<Longrightarrow> snd (register h t1 t2 dto s) = s"
  by (auto simp: register_def Let_def split: option.splits prod.splits)

lemma login_store: "snd (login c m t dto s) = s"
  by (simp add: login_def Let_def split: option.splits)

lemma getProfile_store: "snd (getProfile s i) = s"
  by (simp add: getProfile_def split: option.splits)

lemma register_unique:
  "unique_identities s \<Longrightarrow> unique_identities (snd (register h t1 t2 dto s))"
  by (simp add: register_cases unique_identities_def Let_def)

lemma step_unique: "unique_identities s \<Longrightarrow> unique_identities (step r s)"
  by (cases r) (simp_all add: register_unique login_store getProfile_store)

lemma run_unique: "unique_identities s \<Longrightarrow> unique_identities (run rs s)"
  by (induction rs arbitrary: s) (simp_all add: step_unique)

lemma created_ids_Register:
  "created_ids (Register h t1 t2 dto # rs) s =
     (if RegisterDto.email dto \<in> set (map user_public.email (users s))
         \<or> RegisterDto.username dto \<in> set (map user_public.username (users s))
      then created_ids rs s
      else idCounter s # created_ids rs (snd (register h t1 t2 dto s)))"
  by (simp add: register_cases Let_def omit_password_def)

lemma register_idCounter:
  "idCounter (snd (register h t1 t2 dto s)) =
     (if RegisterDto.email dto \<in> set (map user_public.email (users s))
         \<or> RegisterDto.username dto \<in> set (map user_public.username (users s))
      then idCounter s else idCounter s + 1)"
  by (simp add: register_cases Let_def)

lemma created_ids_increasing:
  "sorted_wrt (<) (created_ids rs s) \<and> (\<forall>i \<in> set (created_ids rs s). idCounter s \<le> i)
   \<and> (created_ids rs s \<noteq> [] \<longrightarrow> hd (created_ids rs s) = idCounter s)"
proof (induction rs arbitrary: s)
  case Nil
  show ?case by simp
next
  case (Cons r rs)
  show ?case
  proof (cases r)
    case (Register h t1 t2 dto)
    show ?thesis
    proof (cases "RegisterDto.email dto \<in> set (map user_public.email (users s))
         \<or> RegisterDto.username dto \<in> set (map user_public.username (users s))")
      case True
      then have "created_ids (r # rs) s = created_ids rs s"
        unfolding Register created_ids_Register by simp
      then show ?thesis using Cons.IH [of s] by simp
    next
      case False
      let ?s' = "snd (register h t1 t2 dto s)"
      from False have ids: "created_ids (r # rs) s = idCounter s # created_ids rs ?s'"
        unfolding Register created_ids_Register by simp
      from False have cnt: "idCounter ?s' = idCounter s + 1"
        by (simp add: register_idCounter)
      from Cons.IH [of ?s'] cnt
      have "sorted_wrt (<) (created_ids rs ?s')"
        and "\<forall>i \<in> set (created_ids rs ?s'). idCounter s < i"
        by auto
      then show ?thesis unfolding ids by auto
    qed
  next
    case (Login c m t dto)
    then show ?thesis using Cons.IH [of s] by (simp add: login_store)
  next
    case (GetProfile i)
    then show ?thesis using Cons.IH [of s] by (simp add: getProfile_store)
  next
    case FindAll
    then show ?thesis using Cons.IH [of s] by simp
  next
    case (FindOne i)
    then show ?thesis using Cons.IH [of s] by simp
  qed
qed

lemma register_stored_ids:
  "map id' (users (snd (register h t1 t2 dto s))) =
     (if RegisterDto.email dto \<in> set (map user_public.email (users s))
         \<or> RegisterDto.username dto \<in> set (map user_public.username (users s))
      then map id' (users s) else map id' (users s) @ [idCounter s])"
  by (simp add: register_cases Let_def)

lemma stored_ids:
  "map id' (users (run rs s)) = map id' (users s) @ created_ids rs s"
proof (induction rs arbitrary: s)
  case Nil
  show ?case by simp
next
  case (Cons r rs)
  show ?case
  proof (cases r)
    case (Register h t1 t2 dto)
    have "map id' (users (run (r # rs) s))
            = map id' (users (snd (register h t1 t2 dto s))) @ created_ids rs (snd (register h t1 t2 dto s))"
      unfolding Register using Cons.IH [of "snd (register h t1 t2 dto s)"] by simp
    also have "\<dots> = map id' (users s) @ created_ids (r # rs) s"
      unfolding Register register_stored_ids created_ids_Register
      by (simp add: register_cases)
    finally show ?thesis .
  next
    case (Login c m t dto)
    then show ?thesis using Cons.IH [of s] by (simp add: login_store)
  next
    case (GetProfile i)
    then show ?thesis using Cons.IH [of s] by (simp add: getProfile_store)
  next
    case FindAll
    then show ?thesis using Cons.IH [of s] by simp
  next
    case (FindOne i)
    then show ?thesis using Cons.IH [of s] by simp
  qed
qed

text \<open>
  The two halves compose to \<open>register\<close> when nothing runs in between, and a call that
  overlaps no other call is a step of \<open>run\<close>.
\<close>

lemma register_split:
  "register h t1 t2 dto s =
     (case register_checks dto s of
        Some e \<Rightarrow> (Throw e, s)
      | None \<Rightarrow> (Return (fst (register_resume h t1 t2 dto s)),
                 snd (register_resume h t1 t2 dto s)))"
  by (simp add: register_def register_checks_def register_resume_def Let_def
        split: option.splits prod.splits)

lemma overlap_run_alone:
  "current (overlap_run [RegisterCalled dto, HashResolved 0 h t1 t2]
              \<lparr>current = s, suspended = []\<rparr>)
     = step (Register h t1 t2 dto) s"
  by (simp add: register_split split: option.splits)

lemmas example_defs =
  example_store_def juan_def ana_def juan_dto_def ana_dto_def
  stub_hash_def stub_compare_def stub_mac_def

section \<open>The claims\<close>

text \<open>
  C1. In any store, a login with an email that no stored account has, and a login with
  the email of a stored active account and a password that \<^verbatim>\<open>bcrypt.compare\<close> rejects
  against the stored hash, both throw \<^verbatim>\<open>UnauthorizedException\<close> with the same message
  (\<open>msg_invalid_credentials\<close>): the two completions are equal, so nothing tells "email
  not found" from "wrong password".
\<close>

theorem login_same_invalid_credentials:
  assumes "absent \<notin> set (map user_public.email (users s))"
    and "findByEmail s known = Some u"
    and "isActive u"
    and "\<not> cmp wrong (user.password u)"
  shows "fst (login cmp mac t \<lparr>LoginDto.email = absent, LoginDto.password = pw\<rparr> s)
           = Throw (UnauthorizedException msg_invalid_credentials)
       \<and> fst (login cmp mac t' \<lparr>LoginDto.email = known, LoginDto.password = wrong\<rparr> s)
           = Throw (UnauthorizedException msg_invalid_credentials)"
proof -
  from assms(1) have "findByEmail s absent = None"
    by (simp add: findByEmail_None_iff)
  then have first: "fst (login cmp mac t \<lparr>LoginDto.email = absent, LoginDto.password = pw\<rparr> s)
           = Throw (UnauthorizedException msg_invalid_credentials)"
    by (simp add: login_def)
  from assms(2-4) have second:
    "fst (login cmp mac t' \<lparr>LoginDto.email = known, LoginDto.password = wrong\<rparr> s)
           = Throw (UnauthorizedException msg_invalid_credentials)"
    by (simp add: login_def)
  from first second show ?thesis by (rule conjI)
qed

theorem login_same_invalid_credentials_witness:
  "''nadie@test.com'' \<notin> set (map user_public.email (users example_store))
   \<and> findByEmail example_store ''juan@test.com'' = Some juan
   \<and> isActive juan
   \<and> \<not> stub_compare ''wrong'' (user.password juan)
   \<and> fst (login stub_compare stub_mac 5000
            \<lparr>LoginDto.email = ''nadie@test.com'', LoginDto.password = ''miPassword123''\<rparr>
            example_store)
       = fst (login stub_compare stub_mac 6000
            \<lparr>LoginDto.email = ''juan@test.com'', LoginDto.password = ''wrong''\<rparr>
            example_store)"
proof -
  have h1: "''nadie@test.com'' \<notin> set (map user_public.email (users example_store))"
    by (simp add: example_defs)
  have h2: "findByEmail example_store ''juan@test.com'' = Some juan"
    by (simp add: findByEmail_def example_defs)
  have h3: "isActive juan"
    by (simp add: juan_def)
  have h4: "\<not> stub_compare ''wrong'' (user.password juan)"
    by (simp add: example_defs)
  from login_same_invalid_credentials
         [where absent = "''nadie@test.com''" and s = example_store and known = "''juan@test.com''"
            and u = juan and cmp = stub_compare and wrong = "''wrong''" and mac = stub_mac
            and t = 5000 and t' = 6000 and pw = "''miPassword123''", OF h1 h2 h3 h4]
  show ?thesis using h1 h2 h3 h4 by simp
qed

text \<open>
  C2. The claim asks that no response ever carries the password field. The route
  \<^verbatim>\<open>GET /users/:id\<close> (\<^verbatim>\<open>UsersController.findOne\<close>) returns what \<^verbatim>\<open>findById\<close> returns, the
  stored user as it is: after the first registration on the empty store, the response to
  \<^verbatim>\<open>GET /users/1\<close> carries the stored hash in its \<^verbatim>\<open>password\<close> field. (The payloads of
  \<^verbatim>\<open>register\<close>, \<^verbatim>\<open>login\<close>, \<^verbatim>\<open>getProfile\<close> and \<^verbatim>\<open>findAll\<close> are of type \<open>user_public\<close>,
  which has no such field.)
\<close>

theorem findOne_returns_stored_hash:
  "map_option user.password
     (UsersController_findOne (snd (register h t1 t2 dto init_store)) 1)
   = Some (h (RegisterDto.password dto) 10)"
  by (simp add: register_cases init_store_def UsersController_findOne_def findById_def Let_def)

text \<open>
  Calls of the caller-facing operations that do not overlap keep emails and usernames
  unique.
\<close>

lemma sequential_runs_unique_identities:
  "distinct (map user_public.email (users (run rs init_store)))
   \<and> distinct (map user_public.username (users (run rs init_store)))"
proof -
  have "unique_identities init_store"
    by (simp add: unique_identities_def init_store_def)
  then have "unique_identities (run rs init_store)"
    by (rule run_unique)
  then show ?thesis by (simp add: unique_identities_def)
qed

text \<open>
  C3. The claim asks that no two stored accounts share an email or a username in any state
  the operations can reach. Two registrations of the same email and username that overlap
  at \<^verbatim>\<open>await bcrypt.hash\<close> both pass the two checks, since neither has stored its account
  when the other checks, and both call \<^verbatim>\<open>create\<close>: from the empty store the service
  reaches a store holding two accounts, with ids 1 and 2, that share their email and their
  username.
\<close>

theorem overlapping_registrations_duplicate:
  "suspended (overlap_run example_overlap init_service) = []
   \<and> map id' (users (current (overlap_run example_overlap init_service))) = [1, 2]
   \<and> map user_public.email (users (current (overlap_run example_overlap init_service)))
       = [''juan@test.com'', ''juan@test.com'']
   \<and> map user_public.username (users (current (overlap_run example_overlap init_service)))
       = [''juanperez'', ''juanperez'']
   \<and> \<not> distinct (map user_public.email (users (current (overlap_run example_overlap init_service))))
   \<and> \<not> distinct (map user_public.username (users (current (overlap_run example_overlap init_service))))"
  by (simp add: example_overlap_def init_service_def init_store_def register_checks_def
        register_resume_def create_def findByEmail_def findAll_def Let_def juan_dto_def)

text \<open>
  C4. When the email and the username of a registration are both taken, \<^verbatim>\<open>register\<close>
  throws the conflict of the email, not that of the username, in every store and for every
  input.
\<close>

theorem register_email_conflict_first:
  assumes "RegisterDto.email dto \<in> set (map user_public.email (users s))"
    and "RegisterDto.username dto \<in> set (map user_public.username (users s))"
  shows "fst (register h t1 t2 dto s) = Throw (ConflictException msg_email_registered)
       \<and> fst (register h t1 t2 dto s) \<noteq> Throw (ConflictException msg_username_in_use)"
proof -
  from assms(1) obtain x where "findByEmail s (RegisterDto.email dto) = Some x"
    using findByEmail_None_iff [of s "RegisterDto.email dto"] by (cases "findByEmail s (RegisterDto.email dto)") auto
  then have "fst (register h t1 t2 dto s) = Throw (ConflictException msg_email_registered)"
    by (simp add: register_def)
  then show ?thesis by (simp add: msgs_distinct)
qed

theorem register_email_conflict_first_witness:
  "RegisterDto.email \<lparr>RegisterDto.username = ''ana'', RegisterDto.email = ''juan@test.com'',
                        RegisterDto.password = ''abcdef''\<rparr>
      \<in> set (map user_public.email (users example_store))
   \<and> RegisterDto.username \<lparr>RegisterDto.username = ''ana'', RegisterDto.email = ''juan@test.com'',
                        RegisterDto.password = ''abcdef''\<rparr>
      \<in> set (map user_public.username (users example_store))
   \<and> fst (register stub_hash 7000 7000
            \<lparr>RegisterDto.username = ''ana'', RegisterDto.email = ''juan@test.com'',
             RegisterDto.password = ''abcdef''\<rparr> example_store)
       = Throw (ConflictException msg_email_registered)"
proof -
  let ?dto = "\<lparr>RegisterDto.username = ''ana'', RegisterDto.email = ''juan@test.com'',
               RegisterDto.password = ''abcdef''\<rparr>"
  have h1: "RegisterDto.email ?dto \<in> set (map user_public.email (users example_store))"
    by (simp add: example_defs)
  have h2: "RegisterDto.username ?dto \<in> set (map user_public.username (users example_store))"
    by (simp add: example_defs)
  from register_email_conflict_first [OF h1 h2, of stub_hash 7000 7000]
  show ?thesis using h1 h2 by simp
qed



text \<open>
  C6. When \<^verbatim>\<open>login\<close> returns, the account found by the email is active and its password
  verified, and the token in the response encodes claims whose \<^verbatim>\<open>sub\<close>, \<^verbatim>\<open>email\<close> and
  \<^verbatim>\<open>username\<close> are the id, email and username of that account and whose \<^verbatim>\<open>exp\<close> is
  \<^verbatim>\<open>iat\<close> plus 24 hours (in seconds).
\<close>

theorem login_token_claims:
  assumes "fst (login cmp mac now dto s) = Return r"
  shows "\<exists>u. findByEmail s (LoginDto.email dto) = Some u
           \<and> isActive u \<and> cmp (LoginDto.password dto) (user.password u)
           \<and> login_response.user r = omit_password u
           \<and> sub (claims (access_token r)) = id' u
           \<and> jwt_payload.email (claims (access_token r)) = user_public.email u
           \<and> jwt_payload.username (claims (access_token r)) = user_public.username u
           \<and> iat (claims (access_token r)) = now
           \<and> exp (claims (access_token r)) = iat (claims (access_token r)) + 24 * 60 * 60"
proof (cases "findByEmail s (LoginDto.email dto)")
  case None
  with assms show ?thesis by (simp add: login_def)
next
  case (Some u)
  with assms have ok: "isActive u" "cmp (LoginDto.password dto) (user.password u)"
    by (auto simp: login_def Let_def split: if_splits)
  with assms Some have
    "r = \<lparr>message = ''Login exitoso'',
          access_token = sign mac now
             \<lparr>sub = id' u, jwt_payload.email = user_public.email u,
              jwt_payload.username = user_public.username u\<rparr>,
          user = omit_password u\<rparr>"
    by (simp add: login_def Let_def)
  then have "login_response.user r = omit_password u"
    and "claims (access_token r) =
           \<lparr>sub = id' u, jwt_payload.email = user_public.email u,
            jwt_payload.username = user_public.username u, iat = now, exp = now + 24 * 60 * 60\<rparr>"
    by (simp_all add: sign_def expiresIn_def jwt_payload.extend_def Let_def)
  with Some ok show ?thesis by simp
qed

theorem login_token_claims_witness:
  "fst (login stub_compare stub_mac 5000
          \<lparr>LoginDto.email = ''juan@test.com'', LoginDto.password = ''miPassword123''\<rparr>
          example_store)
     = Return \<lparr>message = ''Login exitoso'',
               access_token =
                 \<lparr>claims = \<lparr>sub = 1, jwt_payload.email = ''juan@test.com'',
                            jwt_payload.username = ''juanperez'', iat = 5000, exp = 91400\<rparr>,
                  signature = ''signature''\<rparr>,
               user = omit_password juan\<rparr>
   \<and> (\<exists>u. findByEmail example_store ''juan@test.com'' = Some u
          \<and> sub (claims (sign stub_mac 5000
                \<lparr>sub = 1, jwt_payload.email = ''juan@test.com'',
                 jwt_payload.username = ''juanperez''\<rparr>)) = id' u)"
proof -
  let ?dto = "\<lparr>LoginDto.email = ''juan@test.com'', LoginDto.password = ''miPassword123''\<rparr>"
  let ?r = "\<lparr>message = ''Login exitoso'',
               access_token =
                 \<lparr>claims = \<lparr>sub = 1, jwt_payload.email = ''juan@test.com'',
                            jwt_payload.username = ''juanperez'', iat = 5000, exp = 91400\<rparr>,
                  signature = ''signature''\<rparr>,
               user = omit_password juan\<rparr>"
  have h: "fst (login stub_compare stub_mac 5000 ?dto example_store) = Return ?r"
    by (simp add: login_def findByEmail_def sign_def expiresIn_def jwt_payload.extend_def
          example_defs Let_def)
  from login_token_claims [OF h] show ?thesis using h
    by (auto simp: sign_def expiresIn_def jwt_payload.extend_def Let_def)
qed

text \<open>
  C7. Along any sequence of operations from the empty store, the ids given to the
  accounts created by the successful registrations are strictly increasing in the order
  of creation, hence never given twice; the first one is 1; and they are the ids of the
  stored accounts.
\<close>

theorem ids_strictly_increasing_from_one:
  "sorted_wrt (<) (created_ids rs init_store)
   \<and> distinct (created_ids rs init_store)
   \<and> (created_ids rs init_store \<noteq> [] \<longrightarrow> hd (created_ids rs init_store) = 1)
   \<and> map id' (users (run rs init_store)) = created_ids rs init_store"
proof -
  have inc: "sorted_wrt (<) (created_ids rs init_store)"
    using created_ids_increasing [of rs init_store] by simp
  then have "distinct (created_ids rs init_store)"
    by (simp add: strict_sorted_iff)
  moreover have "created_ids rs init_store \<noteq> [] \<longrightarrow> hd (created_ids rs init_store) = 1"
    using created_ids_increasing [of rs init_store] by (simp add: init_store_def)
  moreover have "map id' (users (run rs init_store)) = created_ids rs init_store"
    using stored_ids [of rs init_store] by (simp add: init_store_def)
  ultimately show ?thesis using inc by simp
qed

theorem ids_strictly_increasing_from_one_witness:
  "created_ids example_run init_store = [1, 2]
   \<and> created_ids example_run init_store \<noteq> []
   \<and> sorted_wrt (<) (created_ids example_run init_store)
   \<and> hd (created_ids example_run init_store) = 1"
proof -
  have h: "created_ids example_run init_store = [1, 2]"
    by (simp add: example_run_def init_store_def register_cases login_store omit_password_def
          example_defs Let_def)
  then have ne: "created_ids example_run init_store \<noteq> []"
    by simp
  from ids_strictly_increasing_from_one [of example_run] h ne show ?thesis
    by simp
qed

text \<open>
  C9. The claim says that a business failure reaches the caller as plain data, never as
  an exception of the framework. Registering the same email a second time completes by
  throwing the \<^verbatim>\<open>ConflictException\<close> of \<^verbatim>\<open>@nestjs/common\<close>.
\<close>

theorem failure_is_thrown_counterexample:
  "fst (register stub_hash 1500 1500 juan_dto (snd (register stub_hash 1000 1000 juan_dto init_store)))
     = Throw (ConflictException msg_email_registered)"
  by (simp add: register_cases init_store_def juan_dto_def Let_def)

text \<open>
  C9, as amended. Every business failure of \<^verbatim>\<open>register\<close>, \<^verbatim>\<open>login\<close> and \<^verbatim>\<open>getProfile\<close>
  is signalled by throwing an exception of \<^verbatim>\<open>@nestjs/common\<close> that carries a message:
  \<^verbatim>\<open>ConflictException\<close> for a taken email and for a taken username,
  \<^verbatim>\<open>UnauthorizedException\<close> for an unknown email, a deactivated account and a rejected
  password, \<^verbatim>\<open>NotFoundException\<close> for an unknown id.
\<close>

theorem failures_are_thrown_exceptions:
  "(RegisterDto.email rdto \<in> set (map user_public.email (users s)) \<longrightarrow>
      fst (register h t1 t2 rdto s) = Throw (ConflictException msg_email_registered))
   \<and> (RegisterDto.email rdto \<notin> set (map user_public.email (users s))
        \<and> RegisterDto.username rdto \<in> set (map user_public.username (users s)) \<longrightarrow>
      fst (register h t1 t2 rdto s) = Throw (ConflictException msg_username_in_use))
   \<and> (findByEmail s (LoginDto.email ldto) = None \<longrightarrow>
      fst (login cmp mac now ldto s) = Throw (UnauthorizedException msg_invalid_credentials))
   \<and> (\<forall>u. findByEmail s (LoginDto.email ldto) = Some u \<and> \<not> isActive u \<longrightarrow>
      fst (login cmp mac now ldto s) = Throw (UnauthorizedException msg_user_disabled))
   \<and> (\<forall>u. findByEmail s (LoginDto.email ldto) = Some u \<and> isActive u
          \<and> \<not> cmp (LoginDto.password ldto) (user.password u) \<longrightarrow>
      fst (login cmp mac now ldto s) = Throw (UnauthorizedException msg_invalid_credentials))
   \<and> (findById s i = None \<longrightarrow>
      fst (getProfile s i) = Throw (NotFoundException msg_user_not_found))"
  by (simp add: register_cases login_def getProfile_def)

theorem failures_are_thrown_exceptions_witness:
  "RegisterDto.email juan_dto \<in> set (map user_public.email (users example_store))
   \<and> fst (register stub_hash 7000 7000 juan_dto example_store)
       = Throw (ConflictException msg_email_registered)
   \<and> RegisterDto.email (juan_dto\<lparr>RegisterDto.email := ''otro@test.com''\<rparr>)
        \<notin> set (map user_public.email (users example_store))
   \<and> RegisterDto.username (juan_dto\<lparr>RegisterDto.email := ''otro@test.com''\<rparr>)
        \<in> set (map user_public.username (users example_store))
   \<and> fst (register stub_hash 7000 7000 (juan_dto\<lparr>RegisterDto.email := ''otro@test.com''\<rparr>)
            example_store)
       = Throw (ConflictException msg_username_in_use)
   \<and> findByEmail example_store ''nadie@test.com'' = None
   \<and> fst (login stub_compare stub_mac 5000
            \<lparr>LoginDto.email = ''nadie@test.com'', LoginDto.password = ''abcdef''\<rparr> example_store)
       = Throw (UnauthorizedException msg_invalid_credentials)
   \<and> findByEmail example_store ''ana@test.com'' = Some ana \<and> \<not> isActive ana
   \<and> fst (login stub_compare stub_mac 5000
            \<lparr>LoginDto.email = ''ana@test.com'', LoginDto.password = ''secreto''\<rparr> example_store)
       = Throw (UnauthorizedException msg_user_disabled)
   \<and> findByEmail example_store ''juan@test.com'' = Some juan \<and> isActive juan
   \<and> \<not> stub_compare ''wrong'' (user.password juan)
   \<and> fst (login stub_compare stub_mac 5000
            \<lparr>LoginDto.email = ''juan@test.com'', LoginDto.password = ''wrong''\<rparr> example_store)
       = Throw (UnauthorizedException msg_invalid_credentials)
   \<and> findById example_store 7 = None
   \<and> fst (getProfile example_store 7) = Throw (NotFoundException msg_user_not_found)"
proof -
  let ?otro = "juan_dto\<lparr>RegisterDto.email := ''otro@test.com''\<rparr>"
  let ?nadie = "\<lparr>LoginDto.email = ''nadie@test.com'', LoginDto.password = ''abcdef''\<rparr>"
  let ?ana = "\<lparr>LoginDto.email = ''ana@test.com'', LoginDto.password = ''secreto''\<rparr>"
  let ?juan = "\<lparr>LoginDto.email = ''juan@test.com'', LoginDto.password = ''wrong''\<rparr>"
  have h1: "RegisterDto.email juan_dto \<in> set (map user_public.email (users example_store))"
    by (simp add: example_defs)
  have h2: "RegisterDto.email ?otro \<notin> set (map user_public.email (users example_store))"
    "RegisterDto.username ?otro \<in> set (map user_public.username (users example_store))"
    by (simp_all add: example_defs)
  have h3: "findByEmail example_store ''nadie@test.com'' = None"
    by (simp add: findByEmail_def example_defs)
  have h4: "findByEmail example_store ''ana@test.com'' = Some ana" "\<not> isActive ana"
    by (simp_all add: findByEmail_def example_defs)
  have h5: "findByEmail example_store ''juan@test.com'' = Some juan" "isActive juan"
    "\<not> stub_compare ''wrong'' (user.password juan)"
    by (simp_all add: findByEmail_def example_defs)
  have h6: "findById example_store 7 = None"
    by (simp add: findById_def example_defs)
  note inst = failures_are_thrown_exceptions
      [where s = example_store and h = stub_hash and ?t1.0 = 7000 and ?t2.0 = 7000
         and cmp = stub_compare and mac = stub_mac and now = 5000 and i = 7]
  from inst [where rdto = juan_dto and ldto = ?nadie] h1 h3 h6
  have a: "fst (register stub_hash 7000 7000 juan_dto example_store)
             = Throw (ConflictException msg_email_registered)"
    and c: "fst (login stub_compare stub_mac 5000 ?nadie example_store)
             = Throw (UnauthorizedException msg_invalid_credentials)"
    and f: "fst (getProfile example_store 7) = Throw (NotFoundException msg_user_not_found)"
    by simp_all
  from inst [where rdto = ?otro and ldto = ?ana] h2 h4
  have b: "fst (register stub_hash 7000 7000 ?otro example_store)
             = Throw (ConflictException msg_username_in_use)"
    and d: "fst (login stub_compare stub_mac 5000 ?ana example_store)
             = Throw (UnauthorizedException msg_user_disabled)"
    by simp_all
  from inst [where rdto = juan_dto and ldto = ?juan] h5
  have e: "fst (login stub_compare stub_mac 5000 ?juan example_store)
             = Throw (UnauthorizedException msg_invalid_credentials)"
    by simp
  from a b c d e f h1 h2 h3 h4 h5 h6 show ?thesis by simp
qed

text \<open>
  C10. When \<^verbatim>\<open>register\<close> throws, the store after the call (the array of users and the
  counter) is the store before it; \<^verbatim>\<open>login\<close> and \<^verbatim>\<open>getProfile\<close> leave the store as it was
  on every path.
\<close>

theorem failing_operations_keep_store:
  "(\<forall>e. fst (register h t1 t2 rdto s) = Throw e \<longrightarrow> snd (register h t1 t2 rdto s) = s)
   \<and> snd (login cmp mac now ldto s) = s
   \<and> snd (getProfile s i) = s"
  by (simp add: register_Throw_store login_store getProfile_store)

theorem failing_operations_keep_store_witness:
  "fst (register stub_hash 7000 7000 juan_dto example_store)
     = Throw (ConflictException msg_email_registered)
   \<and> snd (register stub_hash 7000 7000 juan_dto example_store) = example_store
   \<and> snd (login stub_compare stub_mac 5000
            \<lparr>LoginDto.email = ''juan@test.com'', LoginDto.password = ''miPassword123''\<rparr>
            example_store) = example_store
   \<and> snd (getProfile example_store 1) = example_store"
proof -
  have h: "fst (register stub_hash 7000 7000 juan_dto example_store)
             = Throw (ConflictException msg_email_registered)"
    by (simp add: register_def findByEmail_def example_defs)
  from failing_operations_keep_store
         [of stub_hash 7000 7000 juan_dto example_store stub_compare stub_mac 5000
             "\<lparr>LoginDto.email = ''juan@test.com'', LoginDto.password = ''miPassword123''\<rparr>" 1]
  show ?thesis using h by simp
qed

end
